theory Spec2Isabelle
  imports Main
begin

section \<open>JavaScript values used by App.tsx\<close>

text \<open>
  Strings are lists of characters, a character standing for a code unit below 256.
  \<open>err.message\<close> and \<open>response.text\<close> are a string or
  \<open>undefined\<close>, and \<open>process.env.GEMINI_API_KEY\<close> is a string or absent: all three are
  \<open>string option\<close>. The timer handle \<open>analysisTimerRef.current\<close> is a number or
  \<open>null\<close>: \<open>nat option\<close>.
\<close>

type_synonym js_error = "string option"

text \<open>Truthiness, as \<open>if (x)\<close> and \<open>!x\<close> test it: the empty string and the number 0 are falsy.\<close>

definition truthy_str :: "string option \<Rightarrow> bool" where
  "truthy_str v = (case v of None \<Rightarrow> False | Some t \<Rightarrow> t \<noteq> [])"

definition truthy_num :: "nat option \<Rightarrow> bool" where
  "truthy_num v = (case v of None \<Rightarrow> False | Some n \<Rightarrow> n \<noteq> 0)"

text \<open>A value inside a template literal: \<open>undefined\<close> prints as the word.\<close>

definition show_str :: "string option \<Rightarrow> string" where
  "show_str v = (case v of None \<Rightarrow> ''undefined'' | Some t \<Rightarrow> t)"

text \<open>
  \<open>String.prototype.trim\<close> removes white space and line terminators from both ends. Of
  ECMAScript's white space these are the code units below 256: TAB, LF, VT, FF, CR,
  SPACE and NBSP.
\<close>

definition is_ws :: "char \<Rightarrow> bool" where
  "is_ws c = (c \<in> set [CHR 0x09, CHR 0x0A, CHR 0x0B, CHR 0x0C, CHR 0x0D, CHR 0x20, CHR 0xA0])"

definition trim :: "string \<Rightarrow> string" where
  "trim t = rev (dropWhile is_ws (rev (dropWhile is_ws t)))"

text \<open>\<open>t.includes(pat)\<close>: \<open>pat\<close> occurs in \<open>t\<close> as a contiguous substring.\<close>

fun str_includes :: "string \<Rightarrow> string \<Rightarrow> bool" where
  "str_includes [] pat = (pat = [])"
| "str_includes (c # cs) pat = (take (length pat) (c # cs) = pat \<or> str_includes cs pat)"

section \<open>Component state\<close>

datatype severity = Info | Error | Success

text \<open>\<open>type.toUpperCase()\<close> of line 43.\<close>

fun toUpperCase :: "severity \<Rightarrow> string" where
  "toUpperCase Info = ''INFO''"
| "toUpperCase Error = ''ERROR''"
| "toUpperCase Success = ''SUCCESS''"

text \<open>An element of \<open>logs\<close> (line 36): \<open>{time, msg, type}\<close>.\<close>

record log_entry =
  time :: string
  msg :: string
  type :: severity

text \<open>An element of \<open>history\<close> (line 34): \<open>{text, time}\<close>.\<close>

record history_entry =
  h_text :: string
  h_time :: string

text \<open>
  The video element behind \<open>videoRef\<close>. A bound \<open>MediaStream\<close> is the list of its tracks,
  each named by a number.
\<close>

record video_element =
  srcObject :: "nat list option"

text \<open>
  The refs and the state hooks of lines 25 to 37, followed by the part of the browser the
  handlers act on: the console, the window's active interval timers (by handle), the
  tracks that have been stopped, and counters of the frames drawn to the canvas and of
  the \<open>generateContent\<close> calls issued.
\<close>

record app =
  videoRef :: "video_element option"
  canvasRef :: bool
  analysisTimerRef :: "nat option"
  isAnalyzing :: bool
  isCameraActive :: bool
  transcription :: string
  error :: "string option"
  history :: "history_entry list"
  isModelLoading :: bool
  logs :: "log_entry list"
  showDebug :: bool
  console :: "string list"
  intervals :: "nat list"
  stoppedTracks :: "nat set"
  framesCaptured :: nat
  remoteCalls :: nat

definition init :: app where
  "init = \<lparr> videoRef = None, canvasRef = False, analysisTimerRef = None,
     isAnalyzing = False, isCameraActive = False, transcription = [], error = None,
     history = [], isModelLoading = False, logs = [], showDebug = True,
     console = [], intervals = [], stoppedTracks = {}, framesCaptured = 0,
     remoteCalls = 0 \<rparr>"

section \<open>What the environment supplies to one activation of a handler\<close>

text \<open>
  What the frame capture of lines 122 to 126 does: \<open>getContext\<close> returns \<open>null\<close>,
  \<open>drawImage\<close> throws, the encoding (\<open>toDataURL\<close>) throws after the frame was drawn, or
  the frame is captured.
\<close>

datatype capture_result = NoContext | DrawThrew js_error | EncodeThrew js_error | Captured

text \<open>How an awaited \<open>generateContent\<close> settles: with \<open>response.text\<close>, or rejected.\<close>

datatype settle = Resolved "string option" | Rejected js_error

text \<open>How \<open>getUserMedia\<close> settles: with a stream (its tracks), or rejected.\<close>

datatype media_result = Granted "nat list" | Denied js_error

text \<open>
  \<^item> \<open>clock n\<close> is the wall-clock reading \<open>new Date().toLocaleTimeString()\<close> taken for
    source line \<open>n\<close>: the line of the \<open>addLog\<close> call, or line 147 for a history entry;
  \<^item> \<open>closureCameraActive\<close> is the constant \<open>isCameraActive\<close> the running closure
    captured: a handler reads the state of the render that created it, which for a call
    made from the current render is \<open>isCameraActive\<close> of the state;
  \<^item> \<open>apiKey\<close> is \<open>process.env.GEMINI_API_KEY\<close>, read anew in every call;
  \<^item> \<open>capture\<close> is the result of the frame capture;
  \<^item> \<open>client\<close> is \<open>None\<close> when \<open>new GoogleGenAI\<close> returns and \<open>Some err\<close> when it throws;
  \<^item> \<open>timerId\<close> is the handle \<open>window.setInterval\<close> returns.
\<close>

record env =
  clock :: "nat \<Rightarrow> string"
  closureCameraActive :: bool
  apiKey :: "string option"
  capture :: capture_result
  client :: "js_error option"
  timerId :: nat

section \<open>Helpers\<close>

text \<open>Lines 40 to 44. \<open>now\<close> is the clock reading of line 41.\<close>

definition addLog :: "string \<Rightarrow> string \<Rightarrow> severity \<Rightarrow> app \<Rightarrow> app" where
  "addLog now m ty s =
     s\<lparr> logs := take 50 (\<lparr> time = now, msg = m, type = ty \<rparr> # logs s),
        console := console s @ [''['' @ toUpperCase ty @ ''] '' @ m] \<rparr>"

text \<open>Lines 47 to 55, the effect that checks the credential when the component mounts.\<close>

definition apiKeyCheck :: "env \<Rightarrow> app \<Rightarrow> app" where
  "apiKeyCheck e s =
     (if truthy_str (apiKey e)
      then addLog (clock e 50) ''API Key found in environment'' Success s
      else (addLog (clock e 52) ''API Key is missing from environment!'' Error s)
             \<lparr> error := Some ''Gemini API Key is missing. Please add it to your environment variables.'' \<rparr>)"

section \<open>The analysis loop\<close>

text \<open>Lines 168 to 176.\<close>

definition stopAnalysis :: "env \<Rightarrow> app \<Rightarrow> app" where
  "stopAnalysis e s =
     (let s1 = (case analysisTimerRef s of
                  None \<Rightarrow> s
                | Some h \<Rightarrow>
                    if h = 0 then s
                    else s\<lparr> intervals := removeAll h (intervals s), analysisTimerRef := None \<rparr>)
      in addLog (clock e 175) ''Auto-analysis stopped'' Info
           (s1\<lparr> isAnalyzing := False, isModelLoading := False \<rparr>))"

definition rate_limit_message :: string where
  "rate_limit_message = ''Rate limit exceeded. Auto-analysis has been stopped to save your quota. Please wait a minute before trying again.''"

text \<open>The test of line 151.\<close>

definition is_rate_limit :: "js_error \<Rightarrow> bool" where
  "is_rate_limit m =
     (case m of None \<Rightarrow> False
      | Some t \<Rightarrow> str_includes t ''429'' \<or> str_includes t ''RESOURCE_EXHAUSTED'')"

text \<open>The guards of lines 114 to 117.\<close>

definition analyzeFrame_guard :: "env \<Rightarrow> app \<Rightarrow> bool" where
  "analyzeFrame_guard e s =
     (videoRef s \<noteq> None \<and> canvasRef s \<and> closureCameraActive e \<and> truthy_str (apiKey e))"

text \<open>Lines 142 to 148: what is done with the response.\<close>

definition analyzeFrame_result :: "env \<Rightarrow> string option \<Rightarrow> app \<Rightarrow> app" where
  "analyzeFrame_result e txt s =
     (let result = (case txt of None \<Rightarrow> [] | Some t \<Rightarrow> trim t);
          s1 = addLog (clock e 143) (''AI Result: '' @ result)
                 (if result = ''No signs'' then Info else Success) s
      in if result \<noteq> [] \<and> result \<noteq> ''No signs''
         then s1\<lparr> transcription := result,
                  history := take 10 (\<lparr> h_text = result, h_time = clock e 147 \<rparr> # history s1) \<rparr>
         else s1)"

text \<open>Lines 149 to 154: the catch block.\<close>

definition analyzeFrame_catch :: "env \<Rightarrow> js_error \<Rightarrow> app \<Rightarrow> app" where
  "analyzeFrame_catch e err s =
     (let s1 = addLog (clock e 150) (''Analysis failed: '' @ show_str err) Error s
      in if is_rate_limit err
         then stopAnalysis e (s1\<lparr> error := Some rate_limit_message \<rparr>)
         else s1)"

text \<open>Lines 155 to 157: the finally block.\<close>

definition analyzeFrame_finally :: "app \<Rightarrow> app" where
  "analyzeFrame_finally s = s\<lparr> isModelLoading := False \<rparr>"

text \<open>
  \<open>analyzeFrame\<close> is an async function. Its first segment runs with the caller, from line
  114 to the \<open>await\<close> of line 129: it ends there when the request has been issued, and
  earlier, through the finally block, when a guard or the capture stops it.
\<close>

definition analyzeFrame_sync :: "env \<Rightarrow> app \<Rightarrow> app" where
  "analyzeFrame_sync e s =
     (if \<not> analyzeFrame_guard e s then s
      else
        let s1 = addLog (clock e 120) ''Analyzing frame...'' Info (s\<lparr> isModelLoading := True \<rparr>)
        in case capture e of
             NoContext \<Rightarrow> analyzeFrame_finally s1
           | DrawThrew err \<Rightarrow> analyzeFrame_finally (analyzeFrame_catch e err s1)
           | EncodeThrew err \<Rightarrow>
               analyzeFrame_finally
                 (analyzeFrame_catch e err (s1\<lparr> framesCaptured := framesCaptured s1 + 1 \<rparr>))
           | Captured \<Rightarrow>
               (let s2 = s1\<lparr> framesCaptured := framesCaptured s1 + 1 \<rparr>
                in case client e of
                     Some err \<Rightarrow> analyzeFrame_finally (analyzeFrame_catch e err s2)
                   | None \<Rightarrow> s2\<lparr> remoteCalls := remoteCalls s2 + 1 \<rparr>))"

text \<open>The first segment ended at the \<open>await\<close>: a request is in flight.\<close>

definition analyzeFrame_awaits :: "env \<Rightarrow> app \<Rightarrow> bool" where
  "analyzeFrame_awaits e s =
     (analyzeFrame_guard e s \<and> capture e = Captured \<and> client e = None)"

text \<open>
  The second segment runs when the request settles, on the state of that moment: lines
  142 to 148 or the catch block, then the finally block.
\<close>

definition analyzeFrame_settled :: "env \<Rightarrow> settle \<Rightarrow> app \<Rightarrow> app" where
  "analyzeFrame_settled e r s =
     analyzeFrame_finally
       (case r of
          Resolved txt \<Rightarrow> analyzeFrame_result e txt s
        | Rejected err \<Rightarrow> analyzeFrame_catch e err s)"

text \<open>One analysis cycle with nothing in between: both segments, when there is a second.\<close>

definition analyzeFrame :: "env \<Rightarrow> settle \<Rightarrow> app \<Rightarrow> app" where
  "analyzeFrame e r s =
     (if analyzeFrame_awaits e s
      then analyzeFrame_settled e r (analyzeFrame_sync e s)
      else analyzeFrame_sync e s)"

text \<open>
  The error the try block of one analysis cycle throws, if it throws: in the capture, in
  the constructor of the client, or as the rejection of the request.
\<close>

definition analyzeFrame_throws :: "env \<Rightarrow> settle \<Rightarrow> js_error option" where
  "analyzeFrame_throws e r =
     (case capture e of
        NoContext \<Rightarrow> None
      | DrawThrew err \<Rightarrow> Some err
      | EncodeThrew err \<Rightarrow> Some err
      | Captured \<Rightarrow>
          (case client e of
             Some err \<Rightarrow> Some err
           | None \<Rightarrow> (case r of Resolved reply \<Rightarrow> None | Rejected err \<Rightarrow> Some err)))"

text \<open>
  Lines 160 to 166. The call of line 163 is not awaited: only its first segment runs
  before the timer is set.
\<close>

definition startAnalysis :: "env \<Rightarrow> app \<Rightarrow> app" where
  "startAnalysis e s =
     (if truthy_num (analysisTimerRef s) then s
      else
        let s1 = analyzeFrame_sync e (s\<lparr> isAnalyzing := True \<rparr>);
            s2 = s1\<lparr> intervals := intervals s1 @ [timerId e],
                     analysisTimerRef := Some (timerId e) \<rparr>
        in addLog (clock e 165) ''Auto-analysis started'' Info s2)"

section \<open>The connectivity probe\<close>

text \<open>Lines 73 to 75: the catch block.\<close>

definition testAIConnection_catch :: "env \<Rightarrow> js_error \<Rightarrow> app \<Rightarrow> app" where
  "testAIConnection_catch e err s =
     (addLog (clock e 74) (''AI Test Failed: '' @ show_str err) Error s)
       \<lparr> error := Some (''AI Test Failed: '' @ show_str err) \<rparr>"

text \<open>Lines 76 to 78: the finally block.\<close>

definition testAIConnection_finally :: "app \<Rightarrow> app" where
  "testAIConnection_finally s = s\<lparr> isModelLoading := False \<rparr>"

text \<open>Lines 59 to 66, up to the \<open>await\<close>; a missing credential throws at line 63.\<close>

definition testAIConnection_sync :: "env \<Rightarrow> app \<Rightarrow> app" where
  "testAIConnection_sync e s =
     (let s1 = (addLog (clock e 59) ''Testing AI connection...'' Info s)\<lparr> isModelLoading := True \<rparr>
      in if \<not> truthy_str (apiKey e)
         then testAIConnection_finally (testAIConnection_catch e (Some ''No API Key'') s1)
         else case client e of
                Some err \<Rightarrow> testAIConnection_finally (testAIConnection_catch e err s1)
              | None \<Rightarrow> s1\<lparr> remoteCalls := remoteCalls s1 + 1 \<rparr>)"

definition testAIConnection_awaits :: "env \<Rightarrow> bool" where
  "testAIConnection_awaits e = (truthy_str (apiKey e) \<and> client e = None)"

text \<open>Lines 71 to 78, when the request settles.\<close>

definition testAIConnection_settled :: "env \<Rightarrow> settle \<Rightarrow> app \<Rightarrow> app" where
  "testAIConnection_settled e r s =
     testAIConnection_finally
       (case r of
          Resolved txt \<Rightarrow>
            addLog (clock e 72) (''AI Response: '' @ show_str (map_option trim txt)) Success s
        | Rejected err \<Rightarrow> testAIConnection_catch e err s)"

definition testAIConnection :: "env \<Rightarrow> settle \<Rightarrow> app \<Rightarrow> app" where
  "testAIConnection e r s =
     (if testAIConnection_awaits e
      then testAIConnection_settled e r (testAIConnection_sync e s)
      else testAIConnection_sync e s)"

section \<open>The camera\<close>

text \<open>Lines 83 to 86, up to the \<open>await\<close>.\<close>

definition startCamera_sync :: "env \<Rightarrow> app \<Rightarrow> app" where
  "startCamera_sync e s = (addLog (clock e 83) ''Starting camera...'' Info s)\<lparr> error := None \<rparr>"

text \<open>Lines 90 to 98, when \<open>getUserMedia\<close> settles.\<close>

definition startCamera_settled :: "env \<Rightarrow> media_result \<Rightarrow> app \<Rightarrow> app" where
  "startCamera_settled e r s =
     (case r of
        Granted stream \<Rightarrow>
          (case videoRef s of
             None \<Rightarrow> s
           | Some v \<Rightarrow>
               addLog (clock e 93) ''Camera active'' Success
                 (s\<lparr> videoRef := Some (v\<lparr> srcObject := Some stream \<rparr>),
                     isCameraActive := True \<rparr>))
      | Denied err \<Rightarrow>
          (addLog (clock e 96) (''Camera error: '' @ show_str err) Error s)
            \<lparr> error := Some (''Camera Error: '' @ show_str err) \<rparr>)"

text \<open>Lines 101 to 110. \<open>track.stop()\<close> marks the track as stopped.\<close>

definition stopCamera :: "env \<Rightarrow> app \<Rightarrow> app" where
  "stopCamera e s =
     (case videoRef s of
        None \<Rightarrow> s
      | Some v \<Rightarrow>
          (case srcObject v of
             None \<Rightarrow> s
           | Some stream \<Rightarrow>
               stopAnalysis e
                 (addLog (clock e 107) ''Camera stopped'' Info
                    (s\<lparr> stoppedTracks := fold insert stream (stoppedTracks s),
                        videoRef := Some (v\<lparr> srcObject := None \<rparr>),
                        isCameraActive := False \<rparr>))))"

section \<open>The remaining controls\<close>

text \<open>Line 372, the Dismiss button: \<open>setError(null)\<close>.\<close>

definition dismissError :: "app \<Rightarrow> app" where
  "dismissError s = s\<lparr> error := None \<rparr>"

text \<open>Line 392: \<open>setLogs([])\<close>.\<close>

definition clearLogs :: "app \<Rightarrow> app" where
  "clearLogs s = s\<lparr> logs := [] \<rparr>"

text \<open>Line 204: \<open>setShowDebug(!showDebug)\<close>.\<close>

definition toggleDebug :: "app \<Rightarrow> app" where
  "toggleDebug s = s\<lparr> showDebug := \<not> showDebug s \<rparr>"

text \<open>React attaches the two refs when the elements mount and detaches them on unmount.\<close>

definition attachRefs :: "app \<Rightarrow> app" where
  "attachRefs s = s\<lparr> videoRef := Some \<lparr> srcObject = None \<rparr>, canvasRef := True \<rparr>"

definition detachRefs :: "app \<Rightarrow> app" where
  "detachRefs s = s\<lparr> videoRef := None, canvasRef := False \<rparr>"

section \<open>Sequences of operations\<close>

text \<open>
  One event is one uninterrupted run of a handler: a control of the page, an effect of
  lines 47 and 179 (\<open>ApiKeyCheck\<close>, \<open>StartCamera\<close>; the cleanup is \<open>StopCamera\<close> then
  \<open>StopAnalysis\<close>), a tick of the timer or a press of the capture button
  (\<open>AnalyzeFrame\<close>), or the second segment of an async handler. Any event may follow any
  other: the sequences the page can perform are among these, so what holds after every
  sequence of events holds of the page.
\<close>

datatype event =
    AttachRefs
  | DetachRefs
  | ApiKeyCheck env
  | StartCamera env
  | CameraSettled env media_result
  | StopCamera env
  | AnalyzeFrame env
  | AnalyzeSettled env settle
  | StartAnalysis env
  | StopAnalysis env
  | TestAIConnection env
  | TestSettled env settle
  | ToggleDebug
  | DismissError
  | ClearLogs

fun step :: "event \<Rightarrow> app \<Rightarrow> app" where
  "step AttachRefs s = attachRefs s"
| "step DetachRefs s = detachRefs s"
| "step (ApiKeyCheck e) s = apiKeyCheck e s"
| "step (StartCamera e) s = startCamera_sync e s"
| "step (CameraSettled e r) s = startCamera_settled e r s"
| "step (StopCamera e) s = stopCamera e s"
| "step (AnalyzeFrame e) s = analyzeFrame_sync e s"
| "step (AnalyzeSettled e r) s = analyzeFrame_settled e r s"
| "step (StartAnalysis e) s = startAnalysis e s"
| "step (StopAnalysis e) s = stopAnalysis e s"
| "step (TestAIConnection e) s = testAIConnection_sync e s"
| "step (TestSettled e r) s = testAIConnection_settled e r s"
| "step ToggleDebug s = toggleDebug s"
| "step DismissError s = dismissError s"
| "step ClearLogs s = clearLogs s"

fun run :: "event list \<Rightarrow> app \<Rightarrow> app" where
  "run [] s = s"
| "run (ev # evs) s = run evs (step ev s)"

text \<open>\<open>setInterval\<close> returns a handle greater than zero.\<close>

fun handle_positive :: "event \<Rightarrow> bool" where
  "handle_positive (StartAnalysis e) = (timerId e \<noteq> 0)"
| "handle_positive ev = True"

text \<open>
  The loop is armed when a timer handle is stored and that timer is the window's one
  active interval; it is idle when no handle is stored and no interval is active.
\<close>

definition armed :: "app \<Rightarrow> bool" where
  "armed s =
     (truthy_num (analysisTimerRef s) \<and> map Some (intervals s) = [analysisTimerRef s])"

definition idle :: "app \<Rightarrow> bool" where
  "idle s = (analysisTimerRef s = None \<and> intervals s = [])"

text \<open>
  \<open>log_pushed old new\<close>: the list \<open>new\<close> is \<open>old\<close> with entries put in front of it, cut
  to the 50 at the front.
\<close>

definition log_pushed :: "log_entry list \<Rightarrow> log_entry list \<Rightarrow> bool" where
  "log_pushed old new = (\<exists>news. new = take 50 (news @ old))"

section \<open>Concrete inputs\<close>

text \<open>
  An environment in which every clock reading is 10:15:00, the closure saw the camera
  active, the credential is present, the frame is captured and the timer handle is 1;
  the state \<open>ready\<close>, with both refs attached and a stream of one track bound; and
  \<open>armed_state\<close>, the same with the loop running on timer 1.
\<close>

definition clock0 :: "nat \<Rightarrow> string" where
  "clock0 n = ''10:15:00''"

definition env0 :: env where
  "env0 = \<lparr> clock = clock0, closureCameraActive = True, apiKey = Some ''key'',
            capture = Captured, client = None, timerId = 1 \<rparr>"

definition ready :: app where
  "ready = init\<lparr> videoRef := Some \<lparr> srcObject = Some [0] \<rparr>, canvasRef := True,
                 isCameraActive := True \<rparr>"

definition armed_state :: app where
  "armed_state = ready\<lparr> analysisTimerRef := Some 1, intervals := [1], isAnalyzing := True \<rparr>"

text \<open>
  The same environment without the credential, and \<open>ready\<close> with a history of 10
  entries and with a log of 50.
\<close>

definition env_nokey :: env where
  "env_nokey = env0\<lparr> apiKey := None \<rparr>"

definition full_history :: app where
  "full_history = ready\<lparr> history := replicate 10 \<lparr> h_text = ''old'', h_time = ''09:00:00'' \<rparr> \<rparr>"

definition full_logs :: app where
  "full_logs = ready\<lparr> logs := replicate 50 \<lparr> time = ''09:00:00'', msg = ''old'', type = Info \<rparr> \<rparr>"

text \<open>
  The state in which the cleanup of lines 181 to 184 runs: the component mounted, the
  camera was granted a stream of one track, the analysis was started, and React has
  detached the refs because the component unmounts.
\<close>

definition unmounting :: app where
  "unmounting =
     run [AttachRefs, StartCamera env0, CameraSettled env0 (Granted [0]), StartAnalysis env0,
          DetachRefs] init"

section \<open>Lemmas about the handlers\<close>

subsection \<open>addLog\<close>

lemma addLog_fields:
  "videoRef (addLog t m ty s) = videoRef s"
  "canvasRef (addLog t m ty s) = canvasRef s"
  "analysisTimerRef (addLog t m ty s) = analysisTimerRef s"
  "isAnalyzing (addLog t m ty s) = isAnalyzing s"
  "isCameraActive (addLog t m ty s) = isCameraActive s"
  "transcription (addLog t m ty s) = transcription s"
  "error (addLog t m ty s) = error s"
  "history (addLog t m ty s) = history s"
  "isModelLoading (addLog t m ty s) = isModelLoading s"
  "showDebug (addLog t m ty s) = showDebug s"
  "intervals (addLog t m ty s) = intervals s"
  "stoppedTracks (addLog t m ty s) = stoppedTracks s"
  "framesCaptured (addLog t m ty s) = framesCaptured s"
  "remoteCalls (addLog t m ty s) = remoteCalls s"
  by (simp_all add: addLog_def)

lemma logs_addLog:
  "logs (addLog t m ty s) = take 50 (\<lparr> time = t, msg = m, type = ty \<rparr> # logs s)"
  by (simp add: addLog_def)

subsection \<open>history and transcription\<close>

lemma stopAnalysis_keeps:
  "history (stopAnalysis e s) = history s"
  "transcription (stopAnalysis e s) = transcription s"
  by (simp_all add: stopAnalysis_def addLog_fields Let_def split: option.splits)

lemma catch_keeps:
  "history (analyzeFrame_catch e err s) = history s"
  "transcription (analyzeFrame_catch e err s) = transcription s"
  by (simp_all add: analyzeFrame_catch_def stopAnalysis_keeps addLog_fields Let_def)

lemma finally_keeps:
  "history (analyzeFrame_finally s) = history s"
  "transcription (analyzeFrame_finally s) = transcription s"
  "logs (analyzeFrame_finally s) = logs s"
  "analysisTimerRef (analyzeFrame_finally s) = analysisTimerRef s"
  "intervals (analyzeFrame_finally s) = intervals s"
  "isAnalyzing (analyzeFrame_finally s) = isAnalyzing s"
  "error (analyzeFrame_finally s) = error s"
  by (simp_all add: analyzeFrame_finally_def)

lemma test_finally_keeps:
  "history (testAIConnection_finally s) = history s"
  "transcription (testAIConnection_finally s) = transcription s"
  "logs (testAIConnection_finally s) = logs s"
  "analysisTimerRef (testAIConnection_finally s) = analysisTimerRef s"
  "intervals (testAIConnection_finally s) = intervals s"
  by (simp_all add: testAIConnection_finally_def)

lemma sync_keeps:
  "history (analyzeFrame_sync e s) = history s"
  "transcription (analyzeFrame_sync e s) = transcription s"
  by (simp_all add: analyzeFrame_sync_def catch_keeps finally_keeps addLog_fields Let_def
      split: capture_result.splits option.splits)

lemma history_result:
  "history (analyzeFrame_result e txt s) = history s \<or>
   (\<exists>x. history (analyzeFrame_result e txt s) = take 10 (x # history s))"
  by (simp add: analyzeFrame_result_def addLog_fields Let_def)

lemma history_step:
  "history (step ev s) = history s \<or> (\<exists>x. history (step ev s) = take 10 (x # history s))"
proof (cases ev)
  case (AnalyzeSettled e r)
  then show ?thesis
    using history_result [of e _ s]
    by (cases r) (simp_all add: analyzeFrame_settled_def finally_keeps catch_keeps)
next
  case (StartAnalysis e)
  then show ?thesis
    by (simp add: startAnalysis_def addLog_fields sync_keeps Let_def)
next
  case (StopCamera e)
  then show ?thesis
    by (simp add: stopCamera_def stopAnalysis_keeps addLog_fields split: option.splits)
next
  case (CameraSettled e r)
  then show ?thesis
    by (simp add: startCamera_settled_def addLog_fields split: media_result.splits option.splits)
next
  case (TestAIConnection e)
  then show ?thesis
    by (simp add: testAIConnection_sync_def testAIConnection_catch_def test_finally_keeps
        addLog_fields Let_def split: option.splits)
next
  case (TestSettled e r)
  then show ?thesis
    by (simp add: testAIConnection_settled_def testAIConnection_catch_def test_finally_keeps
        addLog_fields split: settle.splits)
qed (simp_all add: attachRefs_def detachRefs_def apiKeyCheck_def startCamera_sync_def
     sync_keeps stopAnalysis_keeps toggleDebug_def dismissError_def clearLogs_def addLog_fields)

lemma length_history_step:
  "length (history s) \<le> 10 \<Longrightarrow> length (history (step ev s)) \<le> 10"
  using history_step [of ev s] by auto

lemma length_history_run:
  "length (history s) \<le> 10 \<Longrightarrow> length (history (run evs s)) \<le> 10"
  by (induction evs arbitrary: s) (simp_all add: length_history_step)


subsection \<open>logs\<close>

lemma logs_stopAnalysis:
  "logs (stopAnalysis e s) =
     take 50 (\<lparr> time = clock e 175, msg = ''Auto-analysis stopped'', type = Info \<rparr> # logs s)"
  by (simp add: stopAnalysis_def logs_addLog Let_def split: option.splits)

lemma take_take_cons: "take n (x # take n xs) = take n (x # xs)"
  by (cases n) simp_all

lemma pushed_refl: "length xs \<le> 50 \<Longrightarrow> log_pushed xs xs"
  unfolding log_pushed_def by (rule exI [of _ "[]"]) simp

lemma pushed_cons:
  assumes "log_pushed old xs"
  shows "log_pushed old (take 50 (x # xs))"
proof -
  from assms obtain news where "xs = take 50 (news @ old)"
    unfolding log_pushed_def ..
  then have "take 50 (x # xs) = take 50 ((x # news) @ old)"
    by (simp add: take_take_cons del: take_append)
  then show ?thesis
    unfolding log_pushed_def ..
qed

lemma pushed_addLog:
  "log_pushed old (logs s) \<Longrightarrow> log_pushed old (logs (addLog t m ty s))"
  unfolding logs_addLog by (rule pushed_cons)

lemma pushed_stopAnalysis:
  "log_pushed old (logs s) \<Longrightarrow> log_pushed old (logs (stopAnalysis e s))"
  unfolding logs_stopAnalysis by (rule pushed_cons)

lemma pushed_catch:
  "log_pushed old (logs s) \<Longrightarrow>
   log_pushed old (logs (analyzeFrame_catch e err s))"
  by (simp add: analyzeFrame_catch_def Let_def pushed_stopAnalysis pushed_addLog)

lemma pushed_sync:
  assumes "length (logs s) \<le> 50"
  shows "log_pushed (logs s) (logs (analyzeFrame_sync e s))"
proof (cases "analyzeFrame_guard e s")
  case False
  then show ?thesis using assms by (simp add: analyzeFrame_sync_def pushed_refl)
next
  case True
  have start: "log_pushed (logs s) (logs (addLog (clock e 120) ''Analyzing frame...'' Info
      (s\<lparr>isModelLoading := True\<rparr>)))"
    using pushed_addLog [where s = "s\<lparr>isModelLoading := True\<rparr>" and old = "logs s"] assms
    by (simp add: pushed_refl)
  show ?thesis
  proof (cases "capture e")
    case NoContext
    with True start show ?thesis by (simp add: analyzeFrame_sync_def finally_keeps)
  next
    case (DrawThrew err)
    with True show ?thesis
      by (simp add: analyzeFrame_sync_def finally_keeps pushed_catch [OF start])
  next
    case (EncodeThrew err)
    with True start show ?thesis
      by (simp add: analyzeFrame_sync_def finally_keeps Let_def pushed_catch)
  next
    case Captured
    with True start show ?thesis
      by (cases "client e") (simp_all add: analyzeFrame_sync_def finally_keeps Let_def pushed_catch)
  qed
qed

lemma pushed_settled:
  assumes "length (logs s) \<le> 50"
  shows "log_pushed (logs s) (logs (analyzeFrame_settled e r s))"
proof (cases r)
  case (Resolved reply)
  have "log_pushed (logs s) (logs (addLog t m ty s))" for t m ty
    using assms by (simp add: pushed_addLog pushed_refl)
  with Resolved show ?thesis
    by (simp add: analyzeFrame_settled_def analyzeFrame_result_def finally_keeps Let_def)
next
  case (Rejected err)
  then show ?thesis
    using assms by (simp add: analyzeFrame_settled_def finally_keeps pushed_catch pushed_refl)
qed

lemma pushed_startAnalysis:
  assumes "length (logs s) \<le> 50"
  shows "log_pushed (logs s) (logs (startAnalysis e s))"
proof (cases "truthy_num (analysisTimerRef s)")
  case True
  then show ?thesis using assms by (simp add: startAnalysis_def pushed_refl)
next
  case False
  have "log_pushed (logs s) (logs (analyzeFrame_sync e (s\<lparr>isAnalyzing := True\<rparr>)))"
    using pushed_sync [of "s\<lparr>isAnalyzing := True\<rparr>" e] assms by simp
  with False show ?thesis
    by (simp add: startAnalysis_def Let_def pushed_addLog)
qed

lemma pushed_stopCamera:
  assumes "length (logs s) \<le> 50"
  shows "log_pushed (logs s) (logs (stopCamera e s))"
  using assms
  by (simp add: stopCamera_def pushed_refl pushed_stopAnalysis pushed_addLog split: option.splits)

lemma pushed_test_catch:
  "log_pushed old (logs s) \<Longrightarrow>
   log_pushed old (logs (testAIConnection_catch e err s))"
  by (simp add: testAIConnection_catch_def pushed_addLog)

lemma pushed_test_sync:
  assumes "length (logs s) \<le> 50"
  shows "log_pushed (logs s) (logs (testAIConnection_sync e s))"
proof -
  have start: "log_pushed (logs s) (logs ((addLog (clock e 59) ''Testing AI connection...'' Info s)
      \<lparr>isModelLoading := True\<rparr>))"
    using pushed_addLog [where s = s and old = "logs s"] assms by (simp add: pushed_refl)
  show ?thesis
    using pushed_test_catch [OF start] start
    by (simp add: testAIConnection_sync_def Let_def test_finally_keeps split: option.splits)
qed

lemma pushed_test_settled:
  assumes "length (logs s) \<le> 50"
  shows "log_pushed (logs s) (logs (testAIConnection_settled e r s))"
  using assms
  by (cases r) (simp_all add: testAIConnection_settled_def test_finally_keeps pushed_test_catch
      pushed_addLog pushed_refl)

lemma logs_step:
  assumes "length (logs s) \<le> 50"
  shows "logs (step ev s) = [] \<or> log_pushed (logs s) (logs (step ev s))"
proof (cases ev)
  case (ApiKeyCheck e)
  then show ?thesis using assms by (simp add: apiKeyCheck_def pushed_addLog pushed_refl)
next
  case (StartCamera e)
  then show ?thesis using assms by (simp add: startCamera_sync_def pushed_addLog pushed_refl)
next
  case (CameraSettled e r)
  then show ?thesis
    using assms
    by (simp add: startCamera_settled_def pushed_addLog pushed_refl
        split: media_result.splits option.splits)
next
  case (StopAnalysis e)
  then show ?thesis using assms by (simp add: pushed_stopAnalysis pushed_refl)
qed (insert assms, simp_all add: pushed_stopCamera pushed_sync pushed_settled pushed_startAnalysis
     pushed_test_sync pushed_test_settled pushed_refl attachRefs_def detachRefs_def toggleDebug_def
     dismissError_def clearLogs_def)

lemma length_logs_step: "length (logs s) \<le> 50 \<Longrightarrow> length (logs (step ev s)) \<le> 50"
  using logs_step [of s ev] by (auto simp: log_pushed_def)

lemma length_logs_run: "length (logs s) \<le> 50 \<Longrightarrow> length (logs (run evs s)) \<le> 50"
  by (induction evs arbitrary: s) (simp_all add: length_logs_step)


subsection \<open>timer\<close>

lemma armed_addLog: "armed (addLog t m ty s) = armed s"
  by (simp add: armed_def addLog_fields)

lemma idle_addLog: "idle (addLog t m ty s) = idle s"
  by (simp add: idle_def addLog_fields)

lemma stopAnalysis_loop:
  assumes "armed s \<or> idle s"
  shows "idle (stopAnalysis e s)" and "\<not> isAnalyzing (stopAnalysis e s)"
    and "\<not> isModelLoading (stopAnalysis e s)"
  using assms
  by (auto simp: stopAnalysis_def armed_def idle_def truthy_num_def addLog_fields Let_def
      split: option.splits)

lemma stopAnalysis_error: "error (stopAnalysis e s) = error s"
  by (simp add: stopAnalysis_def addLog_fields Let_def split: option.splits)

lemma catch_rate_limit:
  assumes "armed s \<or> idle s" and "is_rate_limit err"
  shows "idle (analyzeFrame_catch e err s)" and "\<not> isAnalyzing (analyzeFrame_catch e err s)"
    and "error (analyzeFrame_catch e err s) = Some rate_limit_message"
proof -
  let ?s1 = "(addLog (clock e 150) (''Analysis failed: '' @ show_str err) Error s)
      \<lparr>error := Some rate_limit_message\<rparr>"
  have c: "analyzeFrame_catch e err s = stopAnalysis e ?s1"
    using assms(2) by (simp add: analyzeFrame_catch_def Let_def)
  have "armed ?s1 \<or> idle ?s1"
    using assms(1) by (simp add: armed_def idle_def addLog_fields)
  then show "idle (analyzeFrame_catch e err s)" and "\<not> isAnalyzing (analyzeFrame_catch e err s)"
    unfolding c by (rule stopAnalysis_loop)+
  show "error (analyzeFrame_catch e err s) = Some rate_limit_message"
    unfolding c by (simp add: stopAnalysis_error)
qed

lemma catch_other:
  assumes "\<not> is_rate_limit err"
  shows "analyzeFrame_catch e err s =
    addLog (clock e 150) (''Analysis failed: '' @ show_str err) Error s"
  using assms by (simp add: analyzeFrame_catch_def Let_def)

lemma catch_loop: "armed s \<or> idle s \<Longrightarrow> armed (analyzeFrame_catch e err s) \<or> idle (analyzeFrame_catch e err s)"
  by (cases "is_rate_limit err") (simp_all add: catch_rate_limit catch_other armed_addLog idle_addLog)

lemma finally_loop:
  "armed (analyzeFrame_finally s) = armed s" "idle (analyzeFrame_finally s) = idle s"
  by (simp_all add: armed_def idle_def analyzeFrame_finally_def)

lemma update_loop:
  "armed (s\<lparr>isModelLoading := b\<rparr>) = armed s" "idle (s\<lparr>isModelLoading := b\<rparr>) = idle s"
  "armed (s\<lparr>framesCaptured := n\<rparr>) = armed s" "idle (s\<lparr>framesCaptured := n\<rparr>) = idle s"
  "armed (s\<lparr>remoteCalls := n\<rparr>) = armed s" "idle (s\<lparr>remoteCalls := n\<rparr>) = idle s"
  "armed (s\<lparr>isAnalyzing := b\<rparr>) = armed s" "idle (s\<lparr>isAnalyzing := b\<rparr>) = idle s"
  "armed (s\<lparr>error := x\<rparr>) = armed s" "idle (s\<lparr>error := x\<rparr>) = idle s"
  "armed (s\<lparr>transcription := r\<rparr>) = armed s" "idle (s\<lparr>transcription := r\<rparr>) = idle s"
  "armed (s\<lparr>history := hs\<rparr>) = armed s" "idle (s\<lparr>history := hs\<rparr>) = idle s"
  by (simp_all add: armed_def idle_def)

lemma sync_loop:
  assumes "armed s \<or> idle s"
  shows "armed (analyzeFrame_sync e s) \<or> idle (analyzeFrame_sync e s)"
proof -
  let ?s1 = "addLog (clock e 120) ''Analyzing frame...'' Info (s\<lparr>isModelLoading := True\<rparr>)"
  have s1: "armed ?s1 \<or> idle ?s1"
    using assms by (simp add: armed_addLog idle_addLog update_loop)
  then have s2: "armed (?s1\<lparr>framesCaptured := n\<rparr>) \<or> idle (?s1\<lparr>framesCaptured := n\<rparr>)" for n
    by (simp only: update_loop)
  show ?thesis
    using assms s1 catch_loop [OF s1] catch_loop [OF s2] s2
    by (simp add: analyzeFrame_sync_def Let_def finally_loop update_loop
        split: capture_result.splits option.splits)
qed

lemma settled_loop:
  assumes "armed s \<or> idle s"
  shows "armed (analyzeFrame_settled e r s) \<or> idle (analyzeFrame_settled e r s)"
proof (cases r)
  case (Resolved reply)
  then show ?thesis
    using assms
    by (simp add: analyzeFrame_settled_def analyzeFrame_result_def Let_def finally_loop
        update_loop armed_addLog idle_addLog)
next
  case (Rejected err)
  then show ?thesis
    using catch_loop [OF assms] by (simp add: analyzeFrame_settled_def finally_loop)
qed

lemma startAnalysis_armed_noop: "armed s \<Longrightarrow> startAnalysis e s = s"
  by (auto simp: startAnalysis_def armed_def truthy_num_def split: option.splits)

lemma idle_catch: "idle s \<Longrightarrow> idle (analyzeFrame_catch e err s)"
  by (cases "is_rate_limit err") (simp_all add: catch_rate_limit catch_other idle_addLog)

lemma idle_sync:
  assumes "idle s"
  shows "idle (analyzeFrame_sync e s)"
proof -
  let ?s1 = "addLog (clock e 120) ''Analyzing frame...'' Info (s\<lparr>isModelLoading := True\<rparr>)"
  have s1: "idle ?s1"
    using assms by (simp add: idle_addLog update_loop)
  then have s2: "idle (?s1\<lparr>framesCaptured := n\<rparr>)" for n
    by (simp only: update_loop)
  show ?thesis
    using assms s1 idle_catch [OF s1] idle_catch [OF s2] s2
    by (simp add: analyzeFrame_sync_def Let_def finally_loop update_loop
        split: capture_result.splits option.splits)
qed

lemma startAnalysis_idle:
  assumes "idle s" and "timerId e \<noteq> 0"
  shows "armed (startAnalysis e s)"
    and "analysisTimerRef (startAnalysis e s) = Some (timerId e)"
    and "intervals (startAnalysis e s) = [timerId e]"
proof -
  have "idle (analyzeFrame_sync e (s\<lparr>isAnalyzing := True\<rparr>))"
    using assms(1) by (simp add: idle_sync update_loop)
  then have i: "intervals (analyzeFrame_sync e (s\<lparr>isAnalyzing := True\<rparr>)) = []"
    by (simp add: idle_def)
  have f: "\<not> truthy_num (analysisTimerRef s)"
    using assms(1) by (simp add: idle_def truthy_num_def)
  show "analysisTimerRef (startAnalysis e s) = Some (timerId e)"
    and "intervals (startAnalysis e s) = [timerId e]"
    using f i by (simp_all add: startAnalysis_def Let_def addLog_fields)
  then show "armed (startAnalysis e s)"
    using assms(2) by (simp add: armed_def truthy_num_def)
qed

lemma startAnalysis_loop:
  assumes "armed s \<or> idle s" and "timerId e \<noteq> 0"
  shows "armed (startAnalysis e s) \<or> idle (startAnalysis e s)"
  using assms startAnalysis_armed_noop [of s e] startAnalysis_idle(1) [of s e] by auto

lemma stopCamera_loop:
  assumes "armed s \<or> idle s"
  shows "armed (stopCamera e s) \<or> idle (stopCamera e s)"
proof (cases "stopCamera e s = s")
  case True
  with assms show ?thesis by simp
next
  case False
  then obtain v stream where v: "videoRef s = Some v" "srcObject v = Some stream"
    by (auto simp: stopCamera_def split: option.splits)
  let ?s1 = "addLog (clock e 107) ''Camera stopped'' Info
    (s\<lparr>stoppedTracks := fold insert stream (stoppedTracks s),
       videoRef := Some (v\<lparr>srcObject := None\<rparr>), isCameraActive := False\<rparr>)"
  have "armed ?s1 \<or> idle ?s1"
    using assms by (simp add: armed_def idle_def addLog_fields)
  then have "idle (stopAnalysis e ?s1)"
    by (rule stopAnalysis_loop)
  with v show ?thesis by (simp add: stopCamera_def)
qed

lemma test_loop:
  "armed (testAIConnection_sync e s) = armed s" "idle (testAIConnection_sync e s) = idle s"
  "armed (testAIConnection_settled e r s) = armed s" "idle (testAIConnection_settled e r s) = idle s"
  by (simp_all add: testAIConnection_sync_def testAIConnection_settled_def
      testAIConnection_catch_def testAIConnection_finally_def armed_def idle_def addLog_fields Let_def
      split: option.splits settle.splits)

lemma camera_loop:
  "armed (startCamera_sync e s) = armed s" "idle (startCamera_sync e s) = idle s"
  "armed (startCamera_settled e m s) = armed s" "idle (startCamera_settled e m s) = idle s"
  "armed (apiKeyCheck e s) = armed s" "idle (apiKeyCheck e s) = idle s"
  by (simp_all add: startCamera_sync_def startCamera_settled_def apiKeyCheck_def
      armed_def idle_def addLog_fields split: option.splits media_result.splits)

lemma loop_step:
  assumes "armed s \<or> idle s" and "handle_positive ev"
  shows "armed (step ev s) \<or> idle (step ev s)"
proof (cases ev)
  case (StopAnalysis e)
  then show ?thesis using stopAnalysis_loop(1) [OF assms(1)] by simp
next
  case (StartAnalysis e)
  then show ?thesis using assms startAnalysis_loop by simp
qed (insert assms(1), simp_all add: stopCamera_loop sync_loop settled_loop test_loop camera_loop,
     simp_all add: armed_def idle_def attachRefs_def detachRefs_def toggleDebug_def
       dismissError_def clearLogs_def)

lemma loop_run:
  "armed s \<or> idle s \<Longrightarrow> list_all handle_positive evs \<Longrightarrow> armed (run evs s) \<or> idle (run evs s)"
  by (induction evs arbitrary: s) (simp_all add: loop_step)

lemma idle_init: "idle init"
  by (simp add: idle_def init_def)

lemma loop_intervals: "armed s \<or> idle s \<Longrightarrow> length (intervals s) \<le> 1"
proof (erule disjE)
  assume "armed s"
  then have "length (map Some (intervals s)) = 1"
    by (simp add: armed_def)
  then show ?thesis by simp
next
  assume "idle s"
  then show ?thesis by (simp add: idle_def)
qed


lemma result_shown:
  assumes "trim R \<noteq> []" and "trim R \<noteq> ''No signs''"
  shows "transcription (analyzeFrame_settled e (Resolved (Some R)) s) = trim R"
    and "history (analyzeFrame_settled e (Resolved (Some R)) s) =
      take 10 (\<lparr> h_text = trim R, h_time = clock e 147 \<rparr> # history s)"
  using assms
  by (simp_all add: analyzeFrame_settled_def analyzeFrame_result_def analyzeFrame_finally_def
      addLog_fields Let_def)

subsection \<open>further facts used by the claims\<close>

lemma trim_no_signs: "trim ''No signs'' = ''No signs''"
  by (simp add: trim_def is_ws_def)

lemma sentinel_settled:
  "transcription (analyzeFrame_settled e (Resolved (Some ''No signs'')) s) = transcription s"
  "history (analyzeFrame_settled e (Resolved (Some ''No signs'')) s) = history s"
  "logs (analyzeFrame_settled e (Resolved (Some ''No signs'')) s) =
     take 50 (\<lparr> time = clock e 143, msg = ''AI Result: No signs'', type = Info \<rparr> # logs s)"
  by (simp_all add: analyzeFrame_settled_def analyzeFrame_result_def finally_keeps
      trim_no_signs addLog_fields logs_addLog Let_def)

lemma logs_sync_awaits:
  "analyzeFrame_awaits e s \<Longrightarrow>
   logs (analyzeFrame_sync e s) =
     take 50 (\<lparr> time = clock e 120, msg = ''Analyzing frame...'', type = Info \<rparr> # logs s)"
  by (simp add: analyzeFrame_awaits_def analyzeFrame_sync_def logs_addLog Let_def)

lemma cycle_throw:
  assumes "analyzeFrame_guard e s" and "analyzeFrame_throws e r = Some err"
  shows "\<exists>s1. analyzeFrame e r s = analyzeFrame_finally (analyzeFrame_catch e err s1) \<and>
    armed s1 = armed s \<and> idle s1 = idle s \<and> analysisTimerRef s1 = analysisTimerRef s \<and>
    intervals s1 = intervals s \<and> isAnalyzing s1 = isAnalyzing s \<and>
    logs s1 = take 50 (\<lparr> time = clock e 120, msg = ''Analyzing frame...'', type = Info \<rparr> # logs s)"
proof -
  let ?s1 = "addLog (clock e 120) ''Analyzing frame...'' Info (s\<lparr>isModelLoading := True\<rparr>)"
  let ?s2 = "?s1\<lparr>framesCaptured := framesCaptured ?s1 + 1\<rparr>"
  let ?s3 = "?s2\<lparr>remoteCalls := remoteCalls ?s2 + 1\<rparr>"
  have p1: "armed ?s1 = armed s \<and> idle ?s1 = idle s \<and> analysisTimerRef ?s1 = analysisTimerRef s \<and>
    intervals ?s1 = intervals s \<and> isAnalyzing ?s1 = isAnalyzing s \<and>
    logs ?s1 = take 50 (\<lparr> time = clock e 120, msg = ''Analyzing frame...'', type = Info \<rparr> # logs s)"
    by (simp add: armed_addLog idle_addLog update_loop addLog_fields logs_addLog)
  then have p2: "armed ?s2 = armed s \<and> idle ?s2 = idle s \<and> analysisTimerRef ?s2 = analysisTimerRef s \<and>
    intervals ?s2 = intervals s \<and> isAnalyzing ?s2 = isAnalyzing s \<and>
    logs ?s2 = take 50 (\<lparr> time = clock e 120, msg = ''Analyzing frame...'', type = Info \<rparr> # logs s)"
    by (simp add: update_loop)
  then have p3: "armed ?s3 = armed s \<and> idle ?s3 = idle s \<and> analysisTimerRef ?s3 = analysisTimerRef s \<and>
    intervals ?s3 = intervals s \<and> isAnalyzing ?s3 = isAnalyzing s \<and>
    logs ?s3 = take 50 (\<lparr> time = clock e 120, msg = ''Analyzing frame...'', type = Info \<rparr> # logs s)"
    by (simp add: update_loop)
  consider (draw) "capture e = DrawThrew err"
    | (encode) "capture e = EncodeThrew err"
    | (client) "capture e = Captured" "client e = Some err"
    | (reject) "capture e = Captured" "client e = None" "r = Rejected err"
    using assms(2)
    by (auto simp: analyzeFrame_throws_def split: capture_result.splits option.splits settle.splits)
  then show ?thesis
  proof cases
    case draw
    with assms(1) have "analyzeFrame e r s = analyzeFrame_finally (analyzeFrame_catch e err ?s1)"
      by (simp add: analyzeFrame_def analyzeFrame_awaits_def analyzeFrame_sync_def)
    with p1 show ?thesis by blast
  next
    case encode
    with assms(1) have "analyzeFrame e r s = analyzeFrame_finally (analyzeFrame_catch e err ?s2)"
      by (simp add: analyzeFrame_def analyzeFrame_awaits_def analyzeFrame_sync_def Let_def)
    with p2 show ?thesis by blast
  next
    case client
    with assms(1) have "analyzeFrame e r s = analyzeFrame_finally (analyzeFrame_catch e err ?s2)"
      by (simp add: analyzeFrame_def analyzeFrame_awaits_def analyzeFrame_sync_def Let_def)
    with p2 show ?thesis by blast
  next
    case reject
    with assms(1) have "analyzeFrame e r s = analyzeFrame_finally (analyzeFrame_catch e err ?s3)"
      by (simp add: analyzeFrame_def analyzeFrame_awaits_def analyzeFrame_sync_def
          analyzeFrame_settled_def Let_def)
    with p3 show ?thesis by blast
  qed
qed

lemma finally_catch_rate_limit:
  assumes "armed s" and "is_rate_limit err"
  shows "idle (analyzeFrame_finally (analyzeFrame_catch e err s))"
    and "\<not> isAnalyzing (analyzeFrame_finally (analyzeFrame_catch e err s))"
    and "error (analyzeFrame_finally (analyzeFrame_catch e err s)) = Some rate_limit_message"
  using assms by (simp_all add: finally_loop finally_keeps catch_rate_limit)

lemma finally_catch_other:
  assumes "\<not> is_rate_limit err"
  shows "analysisTimerRef (analyzeFrame_finally (analyzeFrame_catch e err s)) = analysisTimerRef s"
    and "intervals (analyzeFrame_finally (analyzeFrame_catch e err s)) = intervals s"
    and "isAnalyzing (analyzeFrame_finally (analyzeFrame_catch e err s)) = isAnalyzing s"
    and "armed (analyzeFrame_finally (analyzeFrame_catch e err s)) = armed s"
    and "logs (analyzeFrame_finally (analyzeFrame_catch e err s)) =
      take 50 (\<lparr> time = clock e 150, msg = ''Analysis failed: '' @ show_str err, type = Error \<rparr>
               # logs s)"
  using assms
  by (simp_all add: finally_loop finally_keeps catch_other addLog_fields armed_addLog logs_addLog)

lemma quota_error_matches: "is_rate_limit (Some ''Error 429: quota'')"
  by (simp add: is_rate_limit_def)

lemma fetch_error_differs: "\<not> is_rate_limit (Some ''fetch failed'')"
  by (simp add: is_rate_limit_def)

lemma armed_armed_state: "armed armed_state"
  by (simp add: armed_def armed_state_def truthy_num_def)

lemma take_full_butlast: "0 < n \<Longrightarrow> length xs = n \<Longrightarrow> take n (x # xs) = x # butlast xs"
  by (cases n) (simp_all add: butlast_conv_take)

lemma finally_resets: "\<not> isModelLoading (analyzeFrame_finally s)"
  by (simp add: analyzeFrame_finally_def)

lemma test_finally_resets: "\<not> isModelLoading (testAIConnection_finally s)"
  by (simp add: testAIConnection_finally_def)

lemma sync_resets_or_awaits:
  "analyzeFrame_guard e s \<Longrightarrow> \<not> analyzeFrame_awaits e s \<Longrightarrow> \<not> isModelLoading (analyzeFrame_sync e s)"
  by (cases "capture e"; cases "client e")
    (simp_all add: analyzeFrame_sync_def analyzeFrame_awaits_def finally_resets Let_def)

lemma sync_sets:
  "analyzeFrame_awaits e s \<Longrightarrow> isModelLoading (analyzeFrame_sync e s)"
  by (simp add: analyzeFrame_sync_def analyzeFrame_awaits_def addLog_fields Let_def)

lemma test_sync_resets_or_awaits:
  "\<not> testAIConnection_awaits e \<Longrightarrow> \<not> isModelLoading (testAIConnection_sync e s)"
  by (cases "client e")
    (simp_all add: testAIConnection_sync_def testAIConnection_awaits_def test_finally_resets Let_def)

lemma test_sync_sets:
  "testAIConnection_awaits e \<Longrightarrow> isModelLoading (testAIConnection_sync e s)"
  by (simp add: testAIConnection_sync_def testAIConnection_awaits_def Let_def)

lemma remoteCalls_stopAnalysis: "remoteCalls (stopAnalysis e s) = remoteCalls s"
  by (simp add: stopAnalysis_def addLog_fields Let_def split: option.splits)

lemma remoteCalls_catch: "remoteCalls (analyzeFrame_catch e err s) = remoteCalls s"
  by (simp add: analyzeFrame_catch_def remoteCalls_stopAnalysis addLog_fields Let_def)

lemma remoteCalls_sync:
  "remoteCalls (analyzeFrame_sync e s) = remoteCalls s + (if analyzeFrame_awaits e s then 1 else 0)"
  by (cases "capture e"; cases "client e")
    (simp_all add: analyzeFrame_sync_def analyzeFrame_awaits_def analyzeFrame_finally_def
      remoteCalls_catch addLog_fields Let_def)

lemma guard_isAnalyzing:
  "analyzeFrame_guard e (s\<lparr>isAnalyzing := b\<rparr>) = analyzeFrame_guard e s"
  "analyzeFrame_awaits e (s\<lparr>isAnalyzing := b\<rparr>) = analyzeFrame_awaits e s"
  by (simp_all add: analyzeFrame_guard_def analyzeFrame_awaits_def)

lemma startAnalysis_unfold:
  assumes "idle s"
  shows "startAnalysis e s =
    addLog (clock e 165) ''Auto-analysis started'' Info
      ((analyzeFrame_sync e (s\<lparr>isAnalyzing := True\<rparr>))
         \<lparr>intervals := [timerId e], analysisTimerRef := Some (timerId e)\<rparr>)"
proof -
  have "idle (analyzeFrame_sync e (s\<lparr>isAnalyzing := True\<rparr>))"
    using assms by (simp add: idle_sync update_loop)
  then have "intervals (analyzeFrame_sync e (s\<lparr>isAnalyzing := True\<rparr>)) = []"
    by (simp add: idle_def)
  moreover have "\<not> truthy_num (analysisTimerRef s)"
    using assms by (simp add: idle_def truthy_num_def)
  ultimately show ?thesis
    by (simp add: startAnalysis_def Let_def)
qed

lemma idle_ready: "idle ready"
  by (simp add: idle_def ready_def init_def)

lemma fold_insert_set: "fold insert xs A = set xs \<union> A"
  by (induction xs arbitrary: A) auto

lemma stopAnalysis_frame:
  "videoRef (stopAnalysis e s) = videoRef s"
  "isCameraActive (stopAnalysis e s) = isCameraActive s"
  "stoppedTracks (stopAnalysis e s) = stoppedTracks s"
  by (simp_all add: stopAnalysis_def addLog_fields Let_def split: option.splits)

lemma sync_guard_fails: "\<not> analyzeFrame_guard e s \<Longrightarrow> analyzeFrame_sync e s = s"
  by (simp add: analyzeFrame_sync_def)

lemma cycle_guard_fails: "\<not> analyzeFrame_guard e s \<Longrightarrow> analyzeFrame e r s = s"
  by (simp add: analyzeFrame_def analyzeFrame_awaits_def analyzeFrame_sync_def)

lemma stopCamera_bound_stream:
  assumes "videoRef s = Some v" and "srcObject v = Some stream" and "armed s"
  shows "let s' = stopCamera e s in
           stoppedTracks s' = set stream \<union> stoppedTracks s \<and>
           videoRef s' = Some (v\<lparr> srcObject := None \<rparr>) \<and>
           \<not> isCameraActive s' \<and>
           analysisTimerRef s' = None \<and> intervals s' = [] \<and> idle s' \<and> \<not> isAnalyzing s'"
proof -
  let ?s1 = "addLog (clock e 107) ''Camera stopped'' Info
    (s\<lparr>stoppedTracks := fold insert stream (stoppedTracks s),
       videoRef := Some (v\<lparr>srcObject := None\<rparr>), isCameraActive := False\<rparr>)"
  have c: "stopCamera e s = stopAnalysis e ?s1"
    using assms(1,2) by (simp add: stopCamera_def)
  have "armed ?s1"
    using assms(3) by (simp add: armed_def addLog_fields)
  then have l: "idle (stopAnalysis e ?s1)" "\<not> isAnalyzing (stopAnalysis e ?s1)"
    by (simp_all add: stopAnalysis_loop)
  then have "analysisTimerRef (stopAnalysis e ?s1) = None" "intervals (stopAnalysis e ?s1) = []"
    by (simp_all add: idle_def)
  with l show ?thesis
    unfolding c Let_def by (simp add: stopAnalysis_frame addLog_fields fold_insert_set)
qed

lemma unmounting_fields:
  "videoRef unmounting = None" "isCameraActive unmounting" "analysisTimerRef unmounting = Some 1"
  "intervals unmounting = [1]" "isAnalyzing unmounting" "stoppedTracks unmounting = {}"
  by (simp_all add: unmounting_def attachRefs_def detachRefs_def startCamera_sync_def
      startCamera_settled_def startAnalysis_def analyzeFrame_sync_def analyzeFrame_guard_def
      addLog_def env0_def init_def truthy_num_def truthy_str_def Let_def)

section \<open>The claims\<close>

text \<open>
  C1. The response \<open>R\<close> is trimmed at line 142 before anything is done with it. For
  every response \<open>R\<close> whose trimmed text is neither empty nor \<open>No signs\<close>, the second
  segment of an analysis call, on whatever state it finds, sets the transcription to the
  trimmed text and puts \<open>{text: trim R, time: clock reading of line 147}\<close> in front of the
  history, cut to 10 entries, so that the entry is \<open>history[0]\<close>; and so does one whole
  analysis cycle that got as far as the request.
\<close>

theorem analyzeFrame_shows_trimmed_response:
  assumes "trim R \<noteq> []" and "trim R \<noteq> ''No signs''"
  shows "(let s' = analyzeFrame_settled e (Resolved (Some R)) s in
            transcription s' = trim R \<and>
            history s' = take 10 (\<lparr> h_text = trim R, h_time = clock e 147 \<rparr> # history s) \<and>
            history s' ! 0 = \<lparr> h_text = trim R, h_time = clock e 147 \<rparr>) \<and>
         (analyzeFrame_awaits e s \<longrightarrow>
           (let s' = analyzeFrame e (Resolved (Some R)) s in
              transcription s' = trim R \<and>
              history s' = take 10 (\<lparr> h_text = trim R, h_time = clock e 147 \<rparr> # history s) \<and>
              history s' ! 0 = \<lparr> h_text = trim R, h_time = clock e 147 \<rparr>))"
  using assms by (simp add: Let_def analyzeFrame_def result_shown sync_keeps)

theorem analyzeFrame_shows_trimmed_response_witness:
  "trim ''Hello, how are you?'' \<noteq> [] \<and> trim ''Hello, how are you?'' \<noteq> ''No signs'' \<and>
   analyzeFrame_awaits env0 ready \<and>
   transcription (analyzeFrame env0 (Resolved (Some ''Hello, how are you?'')) ready)
     = ''Hello, how are you?'' \<and>
   history (analyzeFrame env0 (Resolved (Some ''Hello, how are you?'')) ready) ! 0
     = \<lparr> h_text = ''Hello, how are you?'', h_time = ''10:15:00'' \<rparr>"
proof -
  have t: "trim ''Hello, how are you?'' = ''Hello, how are you?''"
    by (simp add: trim_def is_ws_def)
  have a: "analyzeFrame_awaits env0 ready"
    by (simp add: analyzeFrame_awaits_def analyzeFrame_guard_def env0_def ready_def init_def
        truthy_str_def)
  show ?thesis
    using analyzeFrame_shows_trimmed_response [of "''Hello, how are you?''" env0 ready] a
    by (simp add: t Let_def env0_def clock0_def)
qed

text \<open>
  C1 as written, with the transcription set to \<open>R\<close> itself, fails for a response with
  white space around it: the response \<open>" Hi"\<close> leaves the transcription \<open>"Hi"\<close>.
\<close>

theorem analyzeFrame_untrimmed_counterexample:
  "trim '' Hi'' \<noteq> [] \<and> trim '' Hi'' \<noteq> ''No signs'' \<and>
   analyzeFrame_awaits env0 ready \<and>
   transcription (analyzeFrame env0 (Resolved (Some '' Hi'')) ready) = ''Hi'' \<and>
   transcription (analyzeFrame env0 (Resolved (Some '' Hi'')) ready) \<noteq> '' Hi''"
  by (simp add: analyzeFrame_def analyzeFrame_awaits_def analyzeFrame_guard_def
      analyzeFrame_sync_def analyzeFrame_settled_def analyzeFrame_result_def
      analyzeFrame_finally_def addLog_def env0_def ready_def init_def trim_def is_ws_def
      truthy_str_def Let_def)

text \<open>
  C2. When the response is exactly \<open>No signs\<close>, the second segment of an analysis call
  leaves the transcription and the history as they were and puts the entry
  \<open>AI Result: No signs\<close>, of severity info, at the front of the log; one whole cycle
  does the same, its log holding that entry in front of \<open>Analyzing frame...\<close>.
\<close>

theorem no_signs_keeps_display:
  "(let s' = analyzeFrame_settled e (Resolved (Some ''No signs'')) s in
      transcription s' = transcription s \<and> history s' = history s \<and>
      logs s' = take 50 (\<lparr> time = clock e 143, msg = ''AI Result: No signs'', type = Info \<rparr>
                         # logs s)) \<and>
   (analyzeFrame_awaits e s \<longrightarrow>
      (let s' = analyzeFrame e (Resolved (Some ''No signs'')) s in
         transcription s' = transcription s \<and> history s' = history s \<and>
         logs s' = take 50 ([\<lparr> time = clock e 143, msg = ''AI Result: No signs'', type = Info \<rparr>,
                             \<lparr> time = clock e 120, msg = ''Analyzing frame...'', type = Info \<rparr>]
                            @ logs s)))"
  by (simp add: Let_def analyzeFrame_def sentinel_settled sync_keeps logs_sync_awaits
      take_take_cons del: take_Cons_numeral)

theorem no_signs_keeps_display_witness:
  "analyzeFrame_awaits env0 (ready\<lparr> transcription := ''Hi'' \<rparr>) \<and>
   transcription (analyzeFrame env0 (Resolved (Some ''No signs'')) (ready\<lparr> transcription := ''Hi'' \<rparr>))
     = ''Hi'' \<and>
   history (analyzeFrame env0 (Resolved (Some ''No signs'')) (ready\<lparr> transcription := ''Hi'' \<rparr>)) = [] \<and>
   logs (analyzeFrame env0 (Resolved (Some ''No signs'')) (ready\<lparr> transcription := ''Hi'' \<rparr>)) =
     [\<lparr> time = ''10:15:00'', msg = ''AI Result: No signs'', type = Info \<rparr>,
      \<lparr> time = ''10:15:00'', msg = ''Analyzing frame...'', type = Info \<rparr>]"
proof -
  have a: "analyzeFrame_awaits env0 (ready\<lparr> transcription := ''Hi'' \<rparr>)"
    by (simp add: analyzeFrame_awaits_def analyzeFrame_guard_def env0_def ready_def init_def
        truthy_str_def)
  show ?thesis
    using no_signs_keeps_display [of env0 "ready\<lparr> transcription := ''Hi'' \<rparr>"] a
    by (simp add: Let_def env0_def clock0_def ready_def init_def)
qed

text \<open>
  C3. When the request of an analysis call is rejected with an error whose message
  contains \<open>429\<close> or \<open>RESOURCE_EXHAUSTED\<close> while the loop is armed, the loop is idle
  afterwards (no handle stored, no interval active), \<open>isAnalyzing\<close> is false and the error
  message is the rate-limit text. For an error that does not match, the stored handle,
  the active intervals and \<open>isAnalyzing\<close> are what they were, so an armed loop stays
  armed, and the log has \<open>Analysis failed: ...\<close>, of severity error, at its front. Both
  hold of the second segment on any state, and of one whole cycle whatever statement of
  the try block threw.
\<close>

theorem rate_limit_stops_loop:
  "(armed s \<and> is_rate_limit err \<longrightarrow>
      (let s' = analyzeFrame_settled e (Rejected err) s in
         idle s' \<and> \<not> isAnalyzing s' \<and> error s' = Some rate_limit_message)) \<and>
   (\<not> is_rate_limit err \<longrightarrow>
      (let s' = analyzeFrame_settled e (Rejected err) s in
         analysisTimerRef s' = analysisTimerRef s \<and> intervals s' = intervals s \<and>
         isAnalyzing s' = isAnalyzing s \<and> armed s' = armed s \<and>
         logs s' = take 50 (\<lparr> time = clock e 150, msg = ''Analysis failed: '' @ show_str err,
                              type = Error \<rparr> # logs s))) \<and>
   (analyzeFrame_guard e s \<and> analyzeFrame_throws e r = Some err \<and> armed s \<and> is_rate_limit err \<longrightarrow>
      (let s' = analyzeFrame e r s in
         idle s' \<and> \<not> isAnalyzing s' \<and> error s' = Some rate_limit_message)) \<and>
   (analyzeFrame_guard e s \<and> analyzeFrame_throws e r = Some err \<and> \<not> is_rate_limit err \<longrightarrow>
      (let s' = analyzeFrame e r s in
         analysisTimerRef s' = analysisTimerRef s \<and> intervals s' = intervals s \<and>
         isAnalyzing s' = isAnalyzing s \<and> armed s' = armed s \<and>
         logs s' = take 50 ([\<lparr> time = clock e 150, msg = ''Analysis failed: '' @ show_str err,
                               type = Error \<rparr>,
                             \<lparr> time = clock e 120, msg = ''Analyzing frame...'', type = Info \<rparr>]
                            @ logs s)))"
proof (intro conjI impI)
  assume "armed s \<and> is_rate_limit err"
  then show "let s' = analyzeFrame_settled e (Rejected err) s in
    idle s' \<and> \<not> isAnalyzing s' \<and> error s' = Some rate_limit_message"
    by (simp add: analyzeFrame_settled_def finally_catch_rate_limit)
next
  assume "\<not> is_rate_limit err"
  then show "let s' = analyzeFrame_settled e (Rejected err) s in
    analysisTimerRef s' = analysisTimerRef s \<and> intervals s' = intervals s \<and>
    isAnalyzing s' = isAnalyzing s \<and> armed s' = armed s \<and>
    logs s' = take 50 (\<lparr> time = clock e 150, msg = ''Analysis failed: '' @ show_str err,
                         type = Error \<rparr> # logs s)"
    by (simp add: analyzeFrame_settled_def finally_catch_other del: take_Cons_numeral)
next
  assume a: "analyzeFrame_guard e s \<and> analyzeFrame_throws e r = Some err \<and> armed s \<and>
    is_rate_limit err"
  then obtain s1 where s1: "analyzeFrame e r s = analyzeFrame_finally (analyzeFrame_catch e err s1)"
    "armed s1 = armed s"
    using cycle_throw [of e s r err] by blast
  with a have "armed s1" by simp
  with a show "let s' = analyzeFrame e r s in
    idle s' \<and> \<not> isAnalyzing s' \<and> error s' = Some rate_limit_message"
    by (simp add: s1(1) finally_catch_rate_limit)
next
  assume a: "analyzeFrame_guard e s \<and> analyzeFrame_throws e r = Some err \<and> \<not> is_rate_limit err"
  then obtain s1 where s1: "analyzeFrame e r s = analyzeFrame_finally (analyzeFrame_catch e err s1)"
    "armed s1 = armed s" "analysisTimerRef s1 = analysisTimerRef s" "intervals s1 = intervals s"
    "isAnalyzing s1 = isAnalyzing s"
    "logs s1 = take 50 (\<lparr> time = clock e 120, msg = ''Analyzing frame...'', type = Info \<rparr> # logs s)"
    using cycle_throw [of e s r err] by blast
  from a show "let s' = analyzeFrame e r s in
    analysisTimerRef s' = analysisTimerRef s \<and> intervals s' = intervals s \<and>
    isAnalyzing s' = isAnalyzing s \<and> armed s' = armed s \<and>
    logs s' = take 50 ([\<lparr> time = clock e 150, msg = ''Analysis failed: '' @ show_str err,
                          type = Error \<rparr>,
                        \<lparr> time = clock e 120, msg = ''Analyzing frame...'', type = Info \<rparr>]
                       @ logs s)"
    by (simp add: s1 finally_catch_other take_take_cons del: take_Cons_numeral)
qed

theorem rate_limit_stops_loop_witness:
  "armed armed_state \<and> is_rate_limit (Some ''Error 429: quota'') \<and>
   \<not> is_rate_limit (Some ''fetch failed'') \<and>
   analyzeFrame_guard env0 armed_state \<and>
   analyzeFrame_throws env0 (Rejected (Some ''Error 429: quota'')) = Some (Some ''Error 429: quota'') \<and>
   analyzeFrame_throws env0 (Rejected (Some ''fetch failed'')) = Some (Some ''fetch failed'') \<and>
   idle (analyzeFrame env0 (Rejected (Some ''Error 429: quota'')) armed_state) \<and>
   \<not> isAnalyzing (analyzeFrame env0 (Rejected (Some ''Error 429: quota'')) armed_state) \<and>
   error (analyzeFrame env0 (Rejected (Some ''Error 429: quota'')) armed_state)
     = Some rate_limit_message \<and>
   armed (analyzeFrame env0 (Rejected (Some ''fetch failed'')) armed_state) \<and>
   isAnalyzing (analyzeFrame env0 (Rejected (Some ''fetch failed'')) armed_state) \<and>
   intervals (analyzeFrame env0 (Rejected (Some ''fetch failed'')) armed_state) = [1]"
proof -
  have g: "analyzeFrame_guard env0 armed_state"
    by (simp add: analyzeFrame_guard_def env0_def armed_state_def ready_def init_def truthy_str_def)
  have t: "analyzeFrame_throws env0 (Rejected x) = Some x" for x
    by (simp add: analyzeFrame_throws_def env0_def)
  have i: "isAnalyzing armed_state" "intervals armed_state = [1]"
    by (simp_all add: armed_state_def)
  show ?thesis
    using rate_limit_stops_loop [of armed_state "Some ''Error 429: quota''" env0
        "Rejected (Some ''Error 429: quota'')"]
      rate_limit_stops_loop [of armed_state "Some ''fetch failed''" env0
        "Rejected (Some ''fetch failed'')"]
      g t i quota_error_matches fetch_error_differs armed_armed_state
    by (simp add: Let_def)
qed

text \<open>
  C4. After every sequence of events the history holds at most 10 entries. One event
  leaves the history as it is or puts one entry in front of it and cuts it to 10, so the
  order is newest first; and when the history holds 10 entries, a response that is shown
  puts its entry in front and drops the last, which is the oldest.
\<close>

theorem history_capped_newest_first:
  "length (history (run evs init)) \<le> 10 \<and>
   (history (step ev s) = history s \<or> (\<exists>x. history (step ev s) = take 10 (x # history s))) \<and>
   (trim R \<noteq> [] \<and> trim R \<noteq> ''No signs'' \<and> length (history s) = 10 \<longrightarrow>
      history (analyzeFrame_settled e (Resolved (Some R)) s) =
        \<lparr> h_text = trim R, h_time = clock e 147 \<rparr> # butlast (history s))"
proof (intro conjI impI)
  show "length (history (run evs init)) \<le> 10"
    by (rule length_history_run) (simp add: init_def)
  show "history (step ev s) = history s \<or> (\<exists>x. history (step ev s) = take 10 (x # history s))"
    by (rule history_step)
  assume "trim R \<noteq> [] \<and> trim R \<noteq> ''No signs'' \<and> length (history s) = 10"
  then show "history (analyzeFrame_settled e (Resolved (Some R)) s) =
      \<lparr> h_text = trim R, h_time = clock e 147 \<rparr> # butlast (history s)"
    by (simp add: result_shown take_full_butlast del: take_Cons_numeral)
qed

theorem history_capped_newest_first_witness:
  "trim ''Hi'' \<noteq> [] \<and> trim ''Hi'' \<noteq> ''No signs'' \<and> length (history full_history) = 10 \<and>
   history (analyzeFrame_settled env0 (Resolved (Some ''Hi'')) full_history) =
     \<lparr> h_text = trim ''Hi'', h_time = clock env0 147 \<rparr> # butlast (history full_history) \<and>
   length (history (run [AnalyzeSettled env0 (Resolved (Some ''Hi''))] init)) \<le> 10"
proof -
  have t: "trim ''Hi'' \<noteq> []" "trim ''Hi'' \<noteq> ''No signs''"
    by (simp_all add: trim_def is_ws_def)
  have l: "length (history full_history) = 10"
    by (simp add: full_history_def)
  show ?thesis
    using history_capped_newest_first
      [where evs = "[AnalyzeSettled env0 (Resolved (Some ''Hi''))]" and ev = DismissError
        and R = "''Hi''" and s = full_history and e = env0] t l
    by blast
qed

text \<open>
  C5. \<open>startAnalysis\<close> on an armed loop returns the state unchanged. After every
  sequence of events in which \<open>setInterval\<close> returns handles greater than zero, at most
  one interval is active, and the loop is armed or idle. From an idle loop
  \<open>startAnalysis\<close> sets \<open>isAnalyzing\<close>, runs the first segment of one analysis call,
  which issues one request when it passes its guards and the capture and none otherwise,
  then stores the new handle with its interval as the only active one, then logs.
\<close>

theorem startAnalysis_single_timer:
  "(armed s \<longrightarrow> startAnalysis e s = s) \<and>
   (list_all handle_positive evs \<longrightarrow>
      length (intervals (run evs init)) \<le> 1 \<and> (armed (run evs init) \<or> idle (run evs init))) \<and>
   (idle s \<and> timerId e \<noteq> 0 \<longrightarrow>
      (let s' = startAnalysis e s in
         s' = addLog (clock e 165) ''Auto-analysis started'' Info
                ((analyzeFrame_sync e (s\<lparr>isAnalyzing := True\<rparr>))
                   \<lparr>intervals := [timerId e], analysisTimerRef := Some (timerId e)\<rparr>) \<and>
         remoteCalls s' = remoteCalls s + (if analyzeFrame_awaits e s then 1 else 0) \<and>
         armed s' \<and> analysisTimerRef s' = Some (timerId e) \<and> intervals s' = [timerId e]))"
proof (intro conjI impI)
  assume "armed s"
  then show "startAnalysis e s = s"
    by (rule startAnalysis_armed_noop)
next
  assume h: "list_all handle_positive evs"
  have l: "armed (run evs init) \<or> idle (run evs init)"
    using idle_init h by (simp add: loop_run)
  then show "length (intervals (run evs init)) \<le> 1"
    by (rule loop_intervals)
  from l show "armed (run evs init) \<or> idle (run evs init)" .
next
  assume a: "idle s \<and> timerId e \<noteq> 0"
  then have u: "startAnalysis e s =
    addLog (clock e 165) ''Auto-analysis started'' Info
      ((analyzeFrame_sync e (s\<lparr>isAnalyzing := True\<rparr>))
         \<lparr>intervals := [timerId e], analysisTimerRef := Some (timerId e)\<rparr>)"
    by (simp add: startAnalysis_unfold)
  have r: "remoteCalls (startAnalysis e s) =
    remoteCalls s + (if analyzeFrame_awaits e s then 1 else 0)"
    unfolding u by (simp add: addLog_fields remoteCalls_sync guard_isAnalyzing)
  from a have i: "armed (startAnalysis e s)" "analysisTimerRef (startAnalysis e s) = Some (timerId e)"
    "intervals (startAnalysis e s) = [timerId e]"
    by (simp_all add: startAnalysis_idle)
  show "let s' = startAnalysis e s in
    s' = addLog (clock e 165) ''Auto-analysis started'' Info
           ((analyzeFrame_sync e (s\<lparr>isAnalyzing := True\<rparr>))
              \<lparr>intervals := [timerId e], analysisTimerRef := Some (timerId e)\<rparr>) \<and>
    remoteCalls s' = remoteCalls s + (if analyzeFrame_awaits e s then 1 else 0) \<and>
    armed s' \<and> analysisTimerRef s' = Some (timerId e) \<and> intervals s' = [timerId e]"
    unfolding Let_def using u r i by blast
qed

theorem startAnalysis_single_timer_witness:
  "armed armed_state \<and> startAnalysis env0 armed_state = armed_state \<and>
   list_all handle_positive [AttachRefs, StartAnalysis env0, StartAnalysis env0] \<and>
   length (intervals (run [AttachRefs, StartAnalysis env0, StartAnalysis env0] init)) \<le> 1 \<and>
   idle ready \<and> timerId env0 \<noteq> 0 \<and> analyzeFrame_awaits env0 ready \<and>
   remoteCalls (startAnalysis env0 ready) = 1 \<and>
   armed (startAnalysis env0 ready) \<and>
   intervals (startAnalysis env0 ready) = [1]"
proof -
  have h: "list_all handle_positive [AttachRefs, StartAnalysis env0, StartAnalysis env0]"
    "timerId env0 \<noteq> 0" "timerId env0 = 1"
    by (simp_all add: env0_def)
  have a: "analyzeFrame_awaits env0 ready" "remoteCalls ready = 0"
    by (simp_all add: analyzeFrame_awaits_def analyzeFrame_guard_def env0_def ready_def init_def
        truthy_str_def)
  have "remoteCalls (startAnalysis env0 ready) =
      remoteCalls ready + (if analyzeFrame_awaits env0 ready then 1 else 0) \<and>
    armed (startAnalysis env0 ready) \<and> intervals (startAnalysis env0 ready) = [timerId env0]"
    using startAnalysis_single_timer [where s = ready and e = env0 and evs = "[]"]
      idle_ready h(2)
    unfolding Let_def by blast
  then show ?thesis
    using startAnalysis_single_timer
        [where s = armed_state and e = env0
          and evs = "[AttachRefs, StartAnalysis env0, StartAnalysis env0]"]
      armed_armed_state idle_ready h a
    by simp
qed

text \<open>
  C6. \<open>stopCamera\<close> reaches the stream only through \<open>videoRef\<close>: with the ref attached
  and a stream bound it stops every track, unbinds the stream, sets \<open>isCameraActive\<close> to
  false and idles the loop (\<open>stopCamera_bound_stream\<close>). The cleanup of lines 181 to 184
  calls it after React has detached the refs. In that state the camera is active and the
  loop is armed, and \<open>stopCamera\<close> returns the state as it is: no track is stopped,
  \<open>isCameraActive\<close> stays true and the loop stays armed. The \<open>stopAnalysis\<close> of line 183
  then idles the loop; the track is still live and \<open>isCameraActive\<close> still true.
\<close>

theorem stopCamera_after_detach_does_nothing:
  "isCameraActive unmounting \<and> armed unmounting \<and>
   stopCamera env0 unmounting = unmounting \<and>
   stoppedTracks (stopCamera env0 unmounting) = {} \<and>
   isCameraActive (stopCamera env0 unmounting) \<and>
   armed (stopCamera env0 unmounting) \<and>
   intervals (stopCamera env0 unmounting) = [1] \<and>
   idle (stopAnalysis env0 (stopCamera env0 unmounting)) \<and>
   stoppedTracks (stopAnalysis env0 (stopCamera env0 unmounting)) = {} \<and>
   isCameraActive (stopAnalysis env0 (stopCamera env0 unmounting))"
proof -
  have a: "armed unmounting"
    by (simp add: armed_def unmounting_fields truthy_num_def)
  have c: "stopCamera env0 unmounting = unmounting"
    by (simp add: stopCamera_def unmounting_fields)
  show ?thesis
    using a by (simp add: c unmounting_fields stopAnalysis_loop stopAnalysis_frame)
qed

text \<open>
  C7. An analysis call whose closure sees the camera inactive (for a call made from the
  current render that is \<open>isCameraActive\<close> of the state), or that finds no credential,
  returns at its guard: the state is unchanged, so no frame is captured, no request is
  issued and nothing is logged. A missing credential is logged with severity error by
  the check run at mount and by the connectivity probe.
\<close>

theorem guard_failure_is_silent:
  "(\<not> closureCameraActive e \<or> \<not> truthy_str (apiKey e) \<longrightarrow>
      analyzeFrame_sync e s = s \<and> analyzeFrame e r s = s \<and>
      framesCaptured (analyzeFrame e r s) = framesCaptured s \<and>
      remoteCalls (analyzeFrame e r s) = remoteCalls s \<and>
      logs (analyzeFrame e r s) = logs s) \<and>
   (\<not> truthy_str (apiKey e) \<longrightarrow>
      logs (apiKeyCheck e s) =
        take 50 (\<lparr> time = clock e 52, msg = ''API Key is missing from environment!'',
                   type = Error \<rparr> # logs s) \<and>
      logs (testAIConnection_sync e s) =
        take 50 ([\<lparr> time = clock e 74, msg = ''AI Test Failed: No API Key'', type = Error \<rparr>,
                  \<lparr> time = clock e 59, msg = ''Testing AI connection...'', type = Info \<rparr>]
                 @ logs s))"
proof (intro conjI impI)
  assume "\<not> closureCameraActive e \<or> \<not> truthy_str (apiKey e)"
  then have g: "\<not> analyzeFrame_guard e s"
    by (auto simp: analyzeFrame_guard_def)
  then show "analyzeFrame_sync e s = s" by (rule sync_guard_fails)
  from g show "analyzeFrame e r s = s" by (rule cycle_guard_fails)
  from g show "framesCaptured (analyzeFrame e r s) = framesCaptured s"
    by (simp add: cycle_guard_fails)
  from g show "remoteCalls (analyzeFrame e r s) = remoteCalls s"
    by (simp add: cycle_guard_fails)
  from g show "logs (analyzeFrame e r s) = logs s"
    by (simp add: cycle_guard_fails)
next
  assume k: "\<not> truthy_str (apiKey e)"
  then show "logs (apiKeyCheck e s) =
      take 50 (\<lparr> time = clock e 52, msg = ''API Key is missing from environment!'',
                 type = Error \<rparr> # logs s)"
    by (simp add: apiKeyCheck_def logs_addLog del: take_Cons_numeral)
  from k show "logs (testAIConnection_sync e s) =
      take 50 ([\<lparr> time = clock e 74, msg = ''AI Test Failed: No API Key'', type = Error \<rparr>,
                \<lparr> time = clock e 59, msg = ''Testing AI connection...'', type = Info \<rparr>]
               @ logs s)"
    by (simp add: testAIConnection_sync_def testAIConnection_catch_def test_finally_keeps logs_addLog
        show_str_def take_take_cons Let_def del: take_Cons_numeral)
qed

theorem guard_failure_is_silent_witness:
  "\<not> closureCameraActive (env0\<lparr> closureCameraActive := False \<rparr>) \<and>
   analyzeFrame (env0\<lparr> closureCameraActive := False \<rparr>) (Resolved (Some ''Hi'')) init = init \<and>
   \<not> truthy_str (apiKey env_nokey) \<and>
   analyzeFrame env_nokey (Resolved (Some ''Hi'')) ready = ready \<and>
   framesCaptured (analyzeFrame env_nokey (Resolved (Some ''Hi'')) ready) = 0 \<and>
   remoteCalls (analyzeFrame env_nokey (Resolved (Some ''Hi'')) ready) = 0 \<and>
   logs (apiKeyCheck env_nokey ready) =
     [\<lparr> time = ''10:15:00'', msg = ''API Key is missing from environment!'', type = Error \<rparr>]"
proof -
  have k: "\<not> truthy_str (apiKey env_nokey)"
    by (simp add: env_nokey_def env0_def truthy_str_def)
  have z: "framesCaptured ready = 0" "remoteCalls ready = 0" "logs ready = []"
    "clock env_nokey 52 = ''10:15:00''"
    by (simp_all add: ready_def init_def env_nokey_def env0_def clock0_def)
  show ?thesis
    using guard_failure_is_silent [of env_nokey ready "Resolved (Some ''Hi'')"]
      guard_failure_is_silent [of "env0\<lparr> closureCameraActive := False \<rparr>" init
        "Resolved (Some ''Hi'')"] k z
    by simp
qed

text \<open>
  C7 as written has the analysis call log the missing credential as an error. With the
  camera active and no credential the call leaves the log empty.
\<close>

theorem missing_credential_not_logged_counterexample:
  "isCameraActive ready \<and> closureCameraActive env_nokey \<and> apiKey env_nokey = None \<and>
   logs (analyzeFrame env_nokey (Resolved (Some ''Hi'')) ready) = []"
  by (simp add: analyzeFrame_def analyzeFrame_awaits_def analyzeFrame_sync_def
      analyzeFrame_guard_def env_nokey_def env0_def ready_def init_def truthy_str_def)

text \<open>
  C8. After every sequence of events the log holds at most 50 entries. One event on a
  log of at most 50 entries empties it or puts entries in front of it and cuts it to 50,
  so the order is newest first; \<open>addLog\<close> puts its entry in front, and on a log of 50
  entries drops the last, which is the oldest.
\<close>

theorem logs_capped_newest_first:
  "length (logs (run evs init)) \<le> 50 \<and>
   (length (logs s) \<le> 50 \<longrightarrow>
      logs (step ev s) = [] \<or> (\<exists>news. logs (step ev s) = take 50 (news @ logs s))) \<and>
   logs (addLog t m ty s) = take 50 (\<lparr> time = t, msg = m, type = ty \<rparr> # logs s) \<and>
   (length (logs s) = 50 \<longrightarrow>
      logs (addLog t m ty s) = \<lparr> time = t, msg = m, type = ty \<rparr> # butlast (logs s))"
proof (intro conjI impI)
  show "length (logs (run evs init)) \<le> 50"
    by (rule length_logs_run) (simp add: init_def)
  show "logs (addLog t m ty s) = take 50 (\<lparr> time = t, msg = m, type = ty \<rparr> # logs s)"
    by (rule logs_addLog)
next
  assume "length (logs s) \<le> 50"
  then show "logs (step ev s) = [] \<or> (\<exists>news. logs (step ev s) = take 50 (news @ logs s))"
    using logs_step [of s ev] by (simp add: log_pushed_def)
next
  assume "length (logs s) = 50"
  then show "logs (addLog t m ty s) = \<lparr> time = t, msg = m, type = ty \<rparr> # butlast (logs s)"
    unfolding logs_addLog by (simp add: take_full_butlast del: take_Cons_numeral)
qed

theorem logs_capped_newest_first_witness:
  "length (logs full_logs) \<le> 50 \<and> length (logs full_logs) = 50 \<and>
   logs (addLog ''10:15:00'' ''new'' Success full_logs) =
     \<lparr> time = ''10:15:00'', msg = ''new'', type = Success \<rparr> # butlast (logs full_logs) \<and>
   length (logs (run [ApiKeyCheck env0, ClearLogs, StartCamera env0] init)) \<le> 50"
proof -
  have l: "length (logs full_logs) = 50" "length (logs full_logs) \<le> 50"
    by (simp_all add: full_logs_def)
  show ?thesis
    using logs_capped_newest_first
      [where evs = "[ApiKeyCheck env0, ClearLogs, StartCamera env0]" and s = full_logs
        and ev = ClearLogs and t = "''10:15:00''" and m = "''new''" and ty = Success] l
    by blast
qed

text \<open>
  C9. Dismissing the error sets the error message to null and leaves the history, the
  log and the transcription as they were.
\<close>

theorem dismissError_clears_only_error:
  "error (dismissError s) = None \<and> history (dismissError s) = history s \<and>
   logs (dismissError s) = logs s \<and> transcription (dismissError s) = transcription s"
  by (simp add: dismissError_def)

theorem dismissError_clears_only_error_witness:
  "error (ready\<lparr> error := Some ''Camera Error: denied'' \<rparr>) \<noteq> None \<and>
   error (dismissError (ready\<lparr> error := Some ''Camera Error: denied'' \<rparr>)) = None \<and>
   logs (dismissError (ready\<lparr> error := Some ''Camera Error: denied'' \<rparr>)) = []"
  using dismissError_clears_only_error [of "ready\<lparr> error := Some ''Camera Error: denied'' \<rparr>"]
  by (simp add: ready_def init_def)

text \<open>
  C10. An analysis cycle that passed its guards, and a run of the connectivity probe,
  end with \<open>isModelLoading\<close> false whatever the outcome, and so does the second segment
  of either on any state; while the request is awaited the flag is true.
\<close>

theorem model_loading_reset:
  "(analyzeFrame_guard e s \<longrightarrow> \<not> isModelLoading (analyzeFrame e r s)) \<and>
   \<not> isModelLoading (analyzeFrame_settled e r s) \<and>
   \<not> isModelLoading (testAIConnection e r s) \<and>
   \<not> isModelLoading (testAIConnection_settled e r s) \<and>
   (analyzeFrame_awaits e s \<longrightarrow> isModelLoading (analyzeFrame_sync e s)) \<and>
   (testAIConnection_awaits e \<longrightarrow> isModelLoading (testAIConnection_sync e s))"
  by (simp add: analyzeFrame_def testAIConnection_def analyzeFrame_settled_def
      testAIConnection_settled_def finally_resets test_finally_resets sync_resets_or_awaits sync_sets
      test_sync_resets_or_awaits test_sync_sets)

theorem model_loading_reset_witness:
  "analyzeFrame_guard env0 ready \<and> analyzeFrame_awaits env0 ready \<and> testAIConnection_awaits env0 \<and>
   \<not> isModelLoading (analyzeFrame env0 (Rejected None) ready) \<and>
   \<not> isModelLoading (testAIConnection env0 (Resolved None) ready) \<and>
   isModelLoading (analyzeFrame_sync env0 ready) \<and>
   isModelLoading (testAIConnection_sync env0 ready)"
proof -
  have g: "analyzeFrame_guard env0 ready" "analyzeFrame_awaits env0 ready"
    "testAIConnection_awaits env0"
    by (simp_all add: analyzeFrame_guard_def analyzeFrame_awaits_def testAIConnection_awaits_def
        env0_def ready_def init_def truthy_str_def)
  show ?thesis
    using model_loading_reset [of env0 ready "Rejected None"]
      model_loading_reset [of env0 ready "Resolved None"] g
    by simp
qed

end
